theory Spec2Isabelle
  imports Main "HOL-Library.Word"
begin

unbundle bit_operations_syntax

section \<open>A shallow embedding of the S3 proxy handler (s3proxy.go)\<close>

text \<open>
  Go strings are byte sequences; they are modelled as \<open>string\<close> (a list of 8-bit
  characters). Byte slices are lists of \<open>8 word\<close>.
\<close>

type_synonym byte = "8 word"

subsection \<open>Go standard library: package path\<close>

text \<open>
  \<open>path.Clean\<close> and \<open>path.Join\<close> belong to the Go standard library; the handler
  only calls them. They are transcribed from the library's algorithm: a read position
  walking over the path, an output buffer \<open>out\<close> and the index \<open>dotdot\<close> below which
  a \<open>..\<close> element must not backtrack.
\<close>

text \<open>
  The inner loop of the \<open>..\<close> case:
  \<^verbatim>\<open>for out.w > dotdot && out.index(out.w) != '/' { out.w-- }\<close>
\<close>

function backtrack :: "nat \<Rightarrow> string \<Rightarrow> nat \<Rightarrow> nat" where
  "backtrack dotdot buf w =
     (if w > dotdot \<and> buf ! w \<noteq> CHR ''/'' then backtrack dotdot buf (w - 1) else w)"
  by pat_completeness auto
termination
  by (relation "measure (\<lambda>(dotdot, buf, w). w)") auto

declare backtrack.simps [simp del]

text \<open>
  The test \<open>rooted && out.w != 1 || !rooted && out.w != 0\<close> that decides whether a
  separator is written before a real path element.
\<close>

definition need_slash :: "bool \<Rightarrow> string \<Rightarrow> bool" where
  "need_slash rooted out = (rooted \<and> length out \<noteq> 1 \<or> \<not> rooted \<and> length out \<noteq> 0)"

text \<open>
  The main loop \<open>for r < n\<close> of \<open>path.Clean\<close>. The second argument is the unread part
  \<open>path[r:]\<close>; every iteration starts at the beginning of a path element. The loop
  state is the buffer \<open>out\<close> and \<open>dotdot\<close>; both are returned.
\<close>

function clean_loop :: "bool \<Rightarrow> string \<Rightarrow> string \<Rightarrow> nat \<Rightarrow> string \<times> nat" where
  "clean_loop rooted [] out dotdot = (out, dotdot)"
| "clean_loop rooted (c # cs) out dotdot =
     (if c = CHR ''/'' then
        \<comment> \<open>empty path element\<close>
        clean_loop rooted cs out dotdot
      else if c = CHR ''.'' \<and> (cs = [] \<or> hd cs = CHR ''/'') then
        \<comment> \<open>. element\<close>
        clean_loop rooted cs out dotdot
      else if c = CHR ''.'' \<and> hd cs = CHR ''.'' \<and> (tl cs = [] \<or> hd (tl cs) = CHR ''/'') then
        \<comment> \<open>.. element: remove to last /\<close>
        (if length out > dotdot then
           \<comment> \<open>can backtrack\<close>
           clean_loop rooted (tl cs) (take (backtrack dotdot out (length out - 1)) out) dotdot
         else if \<not> rooted then
           \<comment> \<open>cannot backtrack, but not rooted, so append .. element\<close>
           (let out' = (if length out > 0 then out @ ''/'' else out) @ ''..''
            in clean_loop rooted (tl cs) out' (length out'))
         else clean_loop rooted (tl cs) out dotdot)
      else
        \<comment> \<open>real path element: add slash if needed, copy element\<close>
        (let out' = (if need_slash rooted out then out @ ''/'' else out)
         in clean_loop rooted (dropWhile (\<lambda>x. x \<noteq> CHR ''/'') cs)
              (out' @ c # takeWhile (\<lambda>x. x \<noteq> CHR ''/'') cs) dotdot))"
  by pat_completeness auto
termination
proof (relation "measure (\<lambda>(rooted, p, out, dotdot). length p)")
  show "wf (measure (\<lambda>(rooted, p, out, dotdot). length p))"
    by simp
next
  fix rooted :: bool and c :: char and cs out :: string and dotdot :: nat and x :: string
  show "((rooted, dropWhile (\<lambda>x. x \<noteq> CHR ''/'') cs, x @ c # takeWhile (\<lambda>x. x \<noteq> CHR ''/'') cs, dotdot),
         (rooted, c # cs, out, dotdot)) \<in> measure (\<lambda>(rooted, p, out, dotdot). length p)"
    by (simp add: length_dropWhile_le le_imp_less_Suc)
qed (auto simp: less_Suc_eq_le)

declare clean_loop.simps(2) [simp del]

text \<open>
  \<open>path.Clean\<close>: the empty path is \<open>.\<close>; a rooted path starts the buffer with \<open>/\<close>
  and \<open>r, dotdot = 1, 1\<close>; an empty buffer at the end is \<open>.\<close>.
\<close>

definition clean_buf :: "string \<Rightarrow> string" where
  "clean_buf p =
     (if hd p = CHR ''/'' then fst (clean_loop True (tl p) ''/'' 1)
      else fst (clean_loop False p [] 0))"

definition path_Clean :: "string \<Rightarrow> string" where
  "path_Clean p =
     (if p = [] then ''.''
      else (let out = clean_buf p in if length out = 0 then ''.'' else out))"

text \<open>
  \<open>path.Join\<close>: the elements from the first non-empty one on are joined with \<open>/\<close> and
  cleaned; when all elements are empty the result is the empty string.
\<close>

fun join_sep :: "string list \<Rightarrow> string" where
  "join_sep [] = []"
| "join_sep [e] = e"
| "join_sep (e # es) = e @ ''/'' @ join_sep es"

fun path_Join :: "string list \<Rightarrow> string" where
  "path_Join [] = []"
| "path_Join (e # es) = (if e = [] then path_Join es else path_Clean (join_sep (e # es)))"

text \<open>\<open>strings.HasSuffix\<close>\<close>

definition HasSuffix :: "string \<Rightarrow> string \<Rightarrow> bool" where
  "HasSuffix s suffix =
     (length s \<ge> length suffix \<and> drop (length s - length suffix) s = suffix)"

subsection \<open>Go standard library: crypto/sha1 and encoding/hex\<close>

text \<open>
  SHA-1 over 32-bit words. The message is padded with \<open>0x80\<close>, zero bytes up to
  56 modulo 64 and the bit length as a 64-bit big-endian number; every 64-byte chunk is
  compressed in 80 rounds into the five state words.
\<close>

type_synonym u32 = "32 word"

definition RotateLeft32 :: "u32 \<Rightarrow> nat \<Rightarrow> u32" where
  "RotateLeft32 x k = push_bit k x OR drop_bit (32 - k) x"

definition be_u32 :: "byte list \<Rightarrow> u32" where
  "be_u32 bs = foldl (\<lambda>acc b. push_bit 8 acc OR ucast b) 0 (take 4 bs)"

definition u32_bytes :: "u32 \<Rightarrow> byte list" where
  "u32_bytes x = [ucast (drop_bit 24 x), ucast (drop_bit 16 x), ucast (drop_bit 8 x), ucast x]"

definition u64_bytes :: "64 word \<Rightarrow> byte list" where
  "u64_bytes x = map (\<lambda>i. ucast (drop_bit (8 * (7 - i)) x)) [0..<8]"

definition sha1_pad :: "byte list \<Rightarrow> byte list" where
  "sha1_pad m =
     m @ [0x80] @ replicate ((119 - length m mod 64) mod 64) 0
       @ u64_bytes (push_bit 3 (of_nat (length m)))"

fun chunks :: "nat \<Rightarrow> byte list \<Rightarrow> byte list list" where
  "chunks 0 p = []"
| "chunks (Suc k) p = take 64 p # chunks k (drop 64 p)"

fun schedule :: "nat \<Rightarrow> u32 list \<Rightarrow> u32 list" where
  "schedule 0 w = w"
| "schedule (Suc k) w =
     schedule k (w @ [RotateLeft32 (w ! (length w - 3) XOR w ! (length w - 8)
                        XOR w ! (length w - 14) XOR w ! (length w - 16)) 1])"

definition sha1_round :: "nat \<Rightarrow> u32 \<Rightarrow> u32 \<times> u32 \<times> u32 \<times> u32 \<times> u32
    \<Rightarrow> u32 \<times> u32 \<times> u32 \<times> u32 \<times> u32" where
  "sha1_round i wi s =
     (case s of (a, b, c, d, e) \<Rightarrow>
        (let f = (if i < 20 then (b AND c) OR (NOT b AND d)
                  else if i < 40 then b XOR c XOR d
                  else if i < 60 then ((b OR c) AND d) OR (b AND c)
                  else b XOR c XOR d);
             k = (if i < 20 then 0x5A827999
                  else if i < 40 then 0x6ED9EBA1
                  else if i < 60 then 0x8F1BBCDC
                  else 0xCA62C1D6);
             t = RotateLeft32 a 5 + f + e + wi + k
         in (t, a, RotateLeft32 b 30, c, d)))"

fun sha1_rounds :: "nat \<Rightarrow> u32 list \<Rightarrow> u32 \<times> u32 \<times> u32 \<times> u32 \<times> u32
    \<Rightarrow> u32 \<times> u32 \<times> u32 \<times> u32 \<times> u32" where
  "sha1_rounds i [] s = s"
| "sha1_rounds i (wi # ws) s = sha1_rounds (Suc i) ws (sha1_round i wi s)"

definition block :: "u32 \<times> u32 \<times> u32 \<times> u32 \<times> u32 \<Rightarrow> byte list
    \<Rightarrow> u32 \<times> u32 \<times> u32 \<times> u32 \<times> u32" where
  "block h p =
     (case h of (h0, h1, h2, h3, h4) \<Rightarrow>
        (let w = schedule 64 (map (\<lambda>i. be_u32 (drop (4 * i) p)) [0..<16])
         in case sha1_rounds 0 w h of (a, b, c, d, e) \<Rightarrow>
              (h0 + a, h1 + b, h2 + c, h3 + d, h4 + e)))"

definition sha1_Sum :: "byte list \<Rightarrow> byte list" where
  "sha1_Sum m =
     (let p = sha1_pad m
      in case foldl block (0x67452301, 0xEFCDAB89, 0x98BADCFE, 0x10325476, 0xC3D2E1F0)
                (chunks (length p div 64) p)
         of (h0, h1, h2, h3, h4) \<Rightarrow>
              u32_bytes h0 @ u32_bytes h1 @ u32_bytes h2 @ u32_bytes h3 @ u32_bytes h4)"

text \<open>\<open>hex.EncodeToString\<close>: two characters of \<open>hextable\<close> for every byte.\<close>

definition hextable :: string where
  "hextable = ''0123456789abcdef''"

fun EncodeToString :: "byte list \<Rightarrow> string" where
  "EncodeToString [] = []"
| "EncodeToString (v # src) =
     hextable ! unat (drop_bit 4 v) # hextable ! unat (v AND 0x0f) # EncodeToString src"

subsection \<open>The handler's pure helpers\<close>

text \<open>\<open>convertSha1\<close>: the hexadecimal SHA-1 digest of the bytes of the string.\<close>

definition convertSha1 :: "string \<Rightarrow> string" where
  "convertSha1 s = EncodeToString (sha1_Sum (map of_char s))"

text \<open>
  \<open>joinPath\<close>. The slice \<open>uriPath[len(uriPath)-1:]\<close> panics when \<open>uriPath\<close> is
  empty (slice bounds out of range), which the model returns as \<open>Inl\<close>.
\<close>

datatype panic = SliceBoundsOutOfRange | NilPointerDereference

definition joinPath :: "string \<Rightarrow> string \<Rightarrow> panic + string" where
  "joinPath root uriPath =
     (if length uriPath = 0 then Inl SliceBoundsOutOfRange
      else
        (let isDir = (drop (length uriPath - 1) uriPath = ''/'');
             newPath = path_Join [root, uriPath]
         in if isDir \<and> newPath \<noteq> ''/'' then Inr (newPath @ ''/'') else Inr newPath))"

text \<open>
  The key computation at the head of \<open>GetHandler\<close>: the default index under a
  trailing slash first, the SHA-1 subdirectory of a non-empty raw query after it.
\<close>

definition GetHandler_s3Key :: "string \<Rightarrow> string \<Rightarrow> string" where
  "GetHandler_s3Key fullPath rawQuery =
     (let defaultIndex = ''index.html'';
          s3Key = fullPath;
          s3Key = (if HasSuffix fullPath ''/'' then path_Join [s3Key, defaultIndex] else s3Key);
          s3Key = (if length rawQuery > 0 then path_Join [s3Key, ''/'', convertSha1 rawQuery]
                   else s3Key)
      in s3Key)"

subsection \<open>Requests, responses and the storage interface\<close>

text \<open>
  \<open>error\<close> values: an \<open>awserr.Error\<close> with its code and message, the error of
  \<open>net/http\<close> for a body written under a status that allows none, and any other error
  with its text.
\<close>

datatype error = AwsErr string string | ErrBodyNotAllowed | OtherErr string

text \<open>\<open>time.Time\<close> with its three fields; the zero value is \<open>time.Time{}\<close>.\<close>

record time_Time =
  wall :: "64 word"
  ext :: "64 word"
  loc :: "nat option"

definition zero_Time :: time_Time where
  "zero_Time = \<lparr>wall = 0, ext = 0, loc = None\<rparr>"

definition TimeFormat :: string where
  "TimeFormat = ''Mon, 02 Jan 2006 15:04:05 GMT''"

text \<open>\<open>http.Header\<close> is \<open>map[string][]string\<close>.\<close>

type_synonym http_Header = "string \<rightharpoonup> string list"

record Request =
  Method :: string
  Path :: string
  RawQuery :: string
  Header :: http_Header

text \<open>
  The state of an \<open>http.ResponseWriter\<close>: the header map, the status code once
  \<open>WriteHeader\<close> has run and the body bytes written so far.
\<close>

record ResponseWriter =
  header :: http_Header
  status :: "nat option"
  body :: "byte list"

record GetObjectInput =
  Bucket :: "string option"
  Key :: "string option"
  Range :: "string option"
  IfMatch :: "string option"
  IfNoneMatch :: "string option"
  IfModifiedSince :: "time_Time option"
  IfUnmodifiedSince :: "time_Time option"

text \<open>
  \<open>s3.GetObjectOutput\<close>: every field is a pointer and may be nil. \<open>Metadata\<close> is a Go
  map; the list gives its entries in the order the \<open>range\<close> loop visits them. \<open>Body\<close>
  is a stream: the bytes it yields and the read error that ends it, if any.
\<close>

record GetObjectOutput =
  CacheControl :: "string option"
  ContentDisposition :: "string option"
  ContentEncoding :: "string option"
  ContentLanguage :: "string option"
  ContentRange :: "string option"
  ContentType :: "string option"
  ETag :: "string option"
  Expires :: "string option"
  LastModified :: "time_Time option"
  ContentLength :: "64 word option"
  Metadata :: "(string \<times> string option) list"
  Body :: "(byte list \<times> error option) option"

text \<open>The handler's configuration, \<open>S3Proxy\<close>.\<close>

record S3Proxy =
  Root :: string
  Region :: string
  BucketName :: string
  Endpoint :: string
  S3UseAccelerate :: bool

text \<open>
  The capabilities the handler calls and does not implement: the canonical form of a
  header name (\<open>textproto.CanonicalMIMEHeaderKey\<close>, applied by \<open>Header.Get\<close>,
  \<open>Set\<close> and \<open>Del\<close>), \<open>time.Parse\<close>, \<open>Time.UTC().Format\<close>, the replacer of the
  request context and \<open>client.GetObject\<close>, which returns a non-nil output beside its
  error.
\<close>

record env =
  CanonicalMIMEHeaderKey :: "string \<Rightarrow> string"
  time_Parse :: "string \<Rightarrow> string \<Rightarrow> error + time_Time"
  time_Format :: "time_Time \<Rightarrow> string \<Rightarrow> string"
  ReplaceAll :: "string \<Rightarrow> string \<Rightarrow> string"
  GetObject :: "GetObjectInput \<Rightarrow> GetObjectOutput \<times> error option"

definition Header_Get :: "env \<Rightarrow> http_Header \<Rightarrow> string \<Rightarrow> string" where
  "Header_Get e h key =
     (case h (CanonicalMIMEHeaderKey e key) of
        None \<Rightarrow> []
      | Some [] \<Rightarrow> []
      | Some (v # vs) \<Rightarrow> v)"

definition Header_Set :: "env \<Rightarrow> http_Header \<Rightarrow> string \<Rightarrow> string \<Rightarrow> http_Header" where
  "Header_Set e h key v = h(CanonicalMIMEHeaderKey e key \<mapsto> [v])"

definition Header_Del :: "env \<Rightarrow> http_Header \<Rightarrow> string \<Rightarrow> http_Header" where
  "Header_Del e h key = h(CanonicalMIMEHeaderKey e key := None)"

text \<open>
  \<open>ResponseWriter.WriteHeader\<close>: the first status code stands, a later call is
  ignored. \<open>Write\<close> sends status 200 when no status was written; it writes nothing for
  empty data and fails under a status that allows no body (1xx, 204, 304).
\<close>

definition WriteHeader :: "ResponseWriter \<Rightarrow> nat \<Rightarrow> ResponseWriter" where
  "WriteHeader rw code = (if status rw = None then rw\<lparr>status := Some code\<rparr> else rw)"

definition bodyAllowedForStatus :: "nat \<Rightarrow> bool" where
  "bodyAllowedForStatus code =
     (if 100 \<le> code \<and> code \<le> 199 then False
      else if code = 204 then False
      else if code = 304 then False
      else True)"

definition Write :: "ResponseWriter \<Rightarrow> byte list \<Rightarrow> ResponseWriter \<times> error option" where
  "Write rw data =
     (let code = (case status rw of None \<Rightarrow> 200 | Some c \<Rightarrow> c);
          rw1 = rw\<lparr>status := Some code\<rparr>
      in if length data = 0 then (rw1, None)
         else if \<not> bodyAllowedForStatus code then (rw1, Some ErrBodyNotAllowed)
         else (rw1\<lparr>body := body rw1 @ data\<rparr>, None))"

text \<open>
  \<open>io.Copy(w, obj.Body)\<close>: the bytes read are written; a failed write ends the copy
  with its error, otherwise the read error of the stream is returned. A stream without
  bytes causes no \<open>Write\<close>.
\<close>

definition io_Copy :: "ResponseWriter \<Rightarrow> byte list \<times> error option \<Rightarrow> ResponseWriter \<times> error option" where
  "io_Copy rw src =
     (case src of (data, rerr) \<Rightarrow>
        if data = [] then (rw, rerr)
        else (case Write rw data of
                (rw', Some werr) \<Rightarrow> (rw', Some werr)
              | (rw', None) \<Rightarrow> (rw', rerr)))"

subsection \<open>The handler\<close>

definition setStrHeader :: "env \<Rightarrow> ResponseWriter \<Rightarrow> string \<Rightarrow> string option \<Rightarrow> ResponseWriter" where
  "setStrHeader e rw key val =
     (case val of
        None \<Rightarrow> rw
      | Some v \<Rightarrow> if length v > 0 then rw\<lparr>header := Header_Set e (header rw) key v\<rparr> else rw)"

definition setTimeHeader :: "env \<Rightarrow> ResponseWriter \<Rightarrow> string \<Rightarrow> time_Time option \<Rightarrow> ResponseWriter" where
  "setTimeHeader e rw key val =
     (case val of
        None \<Rightarrow> rw
      | Some t \<Rightarrow>
          if t \<noteq> zero_Time
          then rw\<lparr>header := Header_Set e (header rw) key (time_Format e t TimeFormat)\<rparr>
          else rw)"

text \<open>The loop \<open>for key, value := range obj.Metadata\<close>.\<close>

fun copy_Metadata :: "env \<Rightarrow> ResponseWriter \<Rightarrow> (string \<times> string option) list \<Rightarrow> ResponseWriter" where
  "copy_Metadata e rw [] = rw"
| "copy_Metadata e rw ((key, val) # md) = copy_Metadata e (setStrHeader e rw key val) md"

definition writeResponseFromGetObject ::
    "env \<Rightarrow> ResponseWriter \<Rightarrow> GetObjectOutput \<Rightarrow> ResponseWriter \<times> error option" where
  "writeResponseFromGetObject e rw obj =
     (let rw = setStrHeader e rw ''Cache-Control'' (CacheControl obj);
          rw = setStrHeader e rw ''Content-Disposition'' (ContentDisposition obj);
          rw = setStrHeader e rw ''Content-Encoding'' (ContentEncoding obj);
          rw = setStrHeader e rw ''Content-Language'' (ContentLanguage obj);
          rw = setStrHeader e rw ''Content-Range'' (ContentRange obj);
          rw = setStrHeader e rw ''Content-Type'' (ContentType obj);
          rw = setStrHeader e rw ''ETag'' (ETag obj);
          rw = setStrHeader e rw ''Expires'' (Expires obj);
          rw = setTimeHeader e rw ''Last-Modified'' (LastModified obj);
          rw = copy_Metadata e rw (Metadata obj);
          rw = rw\<lparr>header := Header_Set e (header rw) ''X-Cache-S3'' ''hit''\<rparr>
      in case Body obj of
           None \<Rightarrow> (rw, None)
         | Some src \<Rightarrow> io_Copy (rw\<lparr>header := Header_Del e (header rw) ''Content-Length''\<rparr>) src)"

text \<open>
  What a request changes: the response writer and, for the record, the inputs of
  the \<open>GetObject\<close> calls made, in order.
\<close>

record world =
  writer :: ResponseWriter
  calls :: "GetObjectInput list"

text \<open>The translation of the request headers at the head of \<open>getS3Object\<close>.\<close>

definition GetObjectInput_of :: "env \<Rightarrow> string \<Rightarrow> string \<Rightarrow> Request \<Rightarrow> GetObjectInput" where
  "GetObjectInput_of e bucket key r =
     (let oi = \<lparr>Bucket = Some bucket, Key = Some key, Range = None, IfMatch = None,
                IfNoneMatch = None, IfModifiedSince = None, IfUnmodifiedSince = None\<rparr>;
          headers = Header r;
          oi = (let rg = Header_Get e headers ''Range''
                in if rg \<noteq> [] then oi\<lparr>Range := Some rg\<rparr> else oi);
          oi = (let ifMatch = Header_Get e headers ''If-Match''
                in if ifMatch \<noteq> [] then oi\<lparr>IfMatch := Some ifMatch\<rparr> else oi);
          oi = (let ifNoneMatch = Header_Get e headers ''If-None-Match''
                in if ifNoneMatch \<noteq> [] then oi\<lparr>IfNoneMatch := Some ifNoneMatch\<rparr> else oi);
          oi = (let ifModifiedSince = Header_Get e headers ''If-Modified-Since''
                in if ifModifiedSince \<noteq> []
                   then (case time_Parse e TimeFormat ifModifiedSince of
                           Inr t \<Rightarrow> oi\<lparr>IfModifiedSince := Some t\<rparr>
                         | Inl err \<Rightarrow> oi)
                   else oi);
          oi = (let ifUnmodifiedSince = Header_Get e headers ''If-Unmodified-Since''
                in if ifUnmodifiedSince \<noteq> []
                   then (case time_Parse e TimeFormat ifUnmodifiedSince of
                           Inr t \<Rightarrow> oi\<lparr>IfUnmodifiedSince := Some t\<rparr>
                         | Inl err \<Rightarrow> oi)
                   else oi)
      in oi)"

text \<open>
  \<open>getS3Object\<close>. \<open>*obj.ContentLength\<close> dereferences a pointer, which panics when
  it is nil.
\<close>

definition getS3Object ::
    "env \<Rightarrow> string \<Rightarrow> string \<Rightarrow> Request \<Rightarrow> world
      \<Rightarrow> world \<times> (panic + GetObjectOutput \<times> error option)" where
  "getS3Object e bucket key r wd =
     (let oi = GetObjectInput_of e bucket key r;
          wd = wd\<lparr>calls := calls wd @ [oi]\<rparr>
      in case GetObject e oi of
           (obj, Some err) \<Rightarrow>
             (case err of
                AwsErr code msg \<Rightarrow>
                  if code = ''NotModified''
                  then (wd\<lparr>writer := WriteHeader (writer wd) 304\<rparr>, Inr (obj, None))
                  else (wd, Inr (obj, Some err))
              | _ \<Rightarrow> (wd, Inr (obj, Some err)))
         | (obj, None) \<Rightarrow>
             (case ContentLength obj of
                None \<Rightarrow> (wd, Inl NilPointerDereference)
              | Some n \<Rightarrow>
                  if n = 0
                  then (wd, Inr (obj, Some (OtherErr ''ContentLength is empty - cache is '')))
                  else (wd, Inr (obj, None))))"

definition GetHandler ::
    "env \<Rightarrow> S3Proxy \<Rightarrow> world \<Rightarrow> Request \<Rightarrow> string \<Rightarrow> world \<times> (panic + error option)" where
  "GetHandler e p wd r fullPath =
     (let s3Key = GetHandler_s3Key fullPath (RawQuery r)
      in case getS3Object e (BucketName p) s3Key r wd of
           (wd, Inl pn) \<Rightarrow> (wd, Inl pn)
         | (wd, Inr (obj, Some err)) \<Rightarrow> (wd, Inr (Some err))
         | (wd, Inr (obj, None)) \<Rightarrow>
             (case writeResponseFromGetObject e (writer wd) obj of
                (rw, err) \<Rightarrow> (wd\<lparr>writer := rw\<rparr>, Inr err)))"

text \<open>
  \<open>ServeHTTP\<close> ends in one of three ways: it returns nil (the request is answered),
  it returns \<open>next.ServeHTTP(w, r)\<close> (the request is handed to the next handler with
  the writer as it then is), or it panics.
\<close>

datatype outcome = Responded | Delegated | Panicked panic

definition ServeHTTP :: "env \<Rightarrow> S3Proxy \<Rightarrow> world \<Rightarrow> Request \<Rightarrow> outcome \<times> world" where
  "ServeHTTP e p wd r =
     (if Method r \<noteq> ''GET'' then (Delegated, wd)
      else
        (case joinPath (ReplaceAll e (Root p) '''') (Path r) of
           Inl pn \<Rightarrow> (Panicked pn, wd)
         | Inr fullPath \<Rightarrow>
             (case GetHandler e p wd r fullPath of
                (wd, Inl pn) \<Rightarrow> (Panicked pn, wd)
              | (wd, Inr None) \<Rightarrow> (Responded, wd)
              | (wd, Inr (Some err)) \<Rightarrow> (Delegated, wd))))"

subsection \<open>Example values\<close>

text \<open>
  Concrete collaborators and inputs on which the theorems below are instantiated:
  header names that are already canonical, a replacer that finds no placeholder, a
  parser that accepts one date, and a storage client that answers every call with the
  given result.
\<close>

definition example_env :: "GetObjectOutput \<times> error option \<Rightarrow> env" where
  "example_env res =
     \<lparr>CanonicalMIMEHeaderKey = (\<lambda>key. key),
      time_Parse = (\<lambda>layout v.
         if layout = ''Mon, 02 Jan 2006 15:04:05 GMT'' \<and> v = ''Thu, 01 Jan 1970 00:00:00 GMT''
         then Inr \<lparr>wall = 0, ext = 62135596800, loc = None\<rparr>
         else Inl (OtherErr ''parsing time'')),
      time_Format = (\<lambda>t layout. ''Thu, 01 Jan 1970 00:00:00 GMT''),
      ReplaceAll = (\<lambda>input empty. input),
      GetObject = (\<lambda>oi. res)\<rparr>"

text \<open>The output \<open>&s3.GetObjectOutput{}\<close>: no field set.\<close>

definition empty_output :: GetObjectOutput where
  "empty_output =
     \<lparr>CacheControl = None, ContentDisposition = None, ContentEncoding = None,
      ContentLanguage = None, ContentRange = None, ContentType = None, ETag = None,
      Expires = None, LastModified = None, ContentLength = None, Metadata = [],
      Body = None\<rparr>"

definition new_world :: world where
  "new_world = \<lparr>writer = \<lparr>header = Map.empty, status = None, body = []\<rparr>, calls = []\<rparr>"

definition example_proxy :: "string \<Rightarrow> S3Proxy" where
  "example_proxy root =
     \<lparr>Root = root, Region = ''eu-west-1'', BucketName = ''bucket'', Endpoint = [],
      S3UseAccelerate = False\<rparr>"

definition example_request :: "string \<Rightarrow> string \<Rightarrow> string \<Rightarrow> http_Header \<Rightarrow> Request" where
  "example_request m urlPath rawQuery h =
     \<lparr>Method = m, Path = urlPath, RawQuery = rawQuery, Header = h\<rparr>"

text \<open>An object with a content type, two metadata entries and a body of two bytes.\<close>

definition html_object :: GetObjectOutput where
  "html_object =
     empty_output\<lparr>ContentType := Some ''text/html'', ContentLength := Some 2,
       Metadata := [(''x-foo'', Some ''bar''), (''x-empty'', Some [])],
       Body := Some ([0x68, 0x69], None)\<rparr>"



section \<open>Properties of the path functions\<close>

subsection \<open>One iteration of the loop of \<open>path.Clean\<close>\<close>

lemma tw_slash: "takeWhile (\<lambda>x. x \<noteq> CHR ''/'') (cs @ CHR ''/'' # s) = takeWhile (\<lambda>x. x \<noteq> CHR ''/'') cs"
  by (induction cs) auto

lemma dw_slash: "dropWhile (\<lambda>x. x \<noteq> CHR ''/'') (cs @ CHR ''/'' # s) = dropWhile (\<lambda>x. x \<noteq> CHR ''/'') cs @ CHR ''/'' # s"
  by (induction cs) auto

lemma step_slash: "clean_loop r (CHR ''/'' # cs) out dd = clean_loop r cs out dd"
  by (simp add: clean_loop.simps(2))

lemma step_dot:
  "cs = [] \<or> hd cs = CHR ''/'' \<Longrightarrow> clean_loop r (CHR ''.'' # cs) out dd = clean_loop r cs out dd"
  by (simp add: clean_loop.simps(2))

lemma step_dotdot:
  "cs = [] \<or> hd cs = CHR ''/'' \<Longrightarrow>
   clean_loop r (CHR ''.'' # CHR ''.'' # cs) out dd =
     (if length out > dd then
        clean_loop r cs (take (backtrack dd out (length out - 1)) out) dd
      else if \<not> r then
        clean_loop r cs ((if length out > 0 then out @ ''/'' else out) @ ''..'')
          (length ((if length out > 0 then out @ ''/'' else out) @ ''..''))
      else clean_loop r cs out dd)"
  by (simp add: clean_loop.simps(2) Let_def)

lemma step_elem:
  "c \<noteq> CHR ''/'' \<Longrightarrow> \<not> (c = CHR ''.'' \<and> (cs = [] \<or> hd cs = CHR ''/'')) \<Longrightarrow>
   \<not> (c = CHR ''.'' \<and> hd cs = CHR ''.'' \<and> (tl cs = [] \<or> hd (tl cs) = CHR ''/'')) \<Longrightarrow>
   clean_loop r (c # cs) out dd =
     clean_loop r (dropWhile (\<lambda>x. x \<noteq> CHR ''/'') cs)
       ((if need_slash r out then out @ ''/'' else out) @ c # takeWhile (\<lambda>x. x \<noteq> CHR ''/'') cs) dd"
  by (subst clean_loop.simps(2)) (simp only: if_False Let_def)

lemma clean_loop_append:
  "clean_loop r (p @ CHR ''/'' # s) out dd = (case clean_loop r p out dd of (o', d') \<Rightarrow> clean_loop r s o' d')"
proof (induction r p out dd rule: clean_loop.induct)
  case (1 rooted out dotdot)
  show ?case by (simp add: step_slash)
next
  case (2 rooted c cs out dotdot)
  let ?t = "CHR ''/'' # s"
  show ?case
  proof (cases "c = CHR ''/''")
    case True
    with "2.IH"(1) show ?thesis by (simp add: step_slash)
  next
    case nsl: False
    show ?thesis
    proof (cases "c = CHR ''.'' \<and> (cs = [] \<or> hd cs = CHR ''/'')")
      case True
      then have "cs @ ?t = [] \<or> hd (cs @ ?t) = CHR ''/''"
        by (cases cs) auto
      then have "clean_loop rooted (c # cs @ ?t) out dotdot = clean_loop rooted (cs @ ?t) out dotdot"
        using True step_dot by simp
      moreover have "clean_loop rooted (c # cs) out dotdot = clean_loop rooted cs out dotdot"
        using True step_dot by simp
      ultimately show ?thesis using "2.IH"(2)[OF nsl True] by simp
    next
      case ndot: False
      show ?thesis
      proof (cases "c = CHR ''.'' \<and> hd cs = CHR ''.'' \<and> (tl cs = [] \<or> hd (tl cs) = CHR ''/'')")
        case True
        then obtain cs' where cs: "cs = CHR ''.'' # cs'" and cs': "cs' = [] \<or> hd cs' = CHR ''/''"
          using ndot by (cases cs) auto
        have c: "c = CHR ''.''" using True by simp
        have cs't: "cs' @ ?t = [] \<or> hd (cs' @ ?t) = CHR ''/''"
          using cs' by (cases cs') auto
        note L = step_dotdot[OF cs't, of rooted out dotdot]
        note R = step_dotdot[OF cs', of rooted out dotdot]
        show ?thesis
        proof (cases "dotdot < length out")
          case bt: True
          show ?thesis using "2.IH"(3)[OF nsl ndot True bt] L R bt by (simp add: c cs)
        next
          case nbt: False
          show ?thesis
          proof (cases rooted)
            case rt: True
            show ?thesis using "2.IH"(5)[OF nsl ndot True nbt] L R nbt rt by (simp add: c cs)
          next
            case nrt: False
            show ?thesis using "2.IH"(4)[OF nsl ndot True nbt nrt refl] L R nbt nrt by (simp add: c cs)
          qed
        qed
      next
        case nreal: False
        have ndot': "\<not> (c = CHR ''.'' \<and> (cs @ ?t = [] \<or> hd (cs @ ?t) = CHR ''/''))"
          using ndot by (cases cs) auto
        have nreal': "\<not> (c = CHR ''.'' \<and> hd (cs @ ?t) = CHR ''.'' \<and> (tl (cs @ ?t) = [] \<or> hd (tl (cs @ ?t)) = CHR ''/''))"
          using ndot nreal by (cases cs; cases "tl cs") auto
        show ?thesis
          using "2.IH"(6)[OF nsl ndot nreal refl]
          by (simp add: step_elem[OF nsl ndot' nreal'] step_elem[OF nsl ndot nreal] tw_slash dw_slash)
      qed
    qed
  qed
qed

lemma clean_loop_elem:
  assumes "e \<noteq> []" "CHR ''/'' \<notin> set e" "e \<noteq> ''.''" "e \<noteq> ''..''"
  shows "clean_loop r e out dd = ((if need_slash r out then out @ ''/'' else out) @ e, dd)"
proof -
  from assms(1) obtain c cs where e: "e = c # cs" by (cases e) auto
  have nsl: "c \<noteq> CHR ''/''" and cs: "CHR ''/'' \<notin> set cs" using assms(2) e by auto
  have ndot: "\<not> (c = CHR ''.'' \<and> (cs = [] \<or> hd cs = CHR ''/''))"
    using assms(3) cs e by (cases cs) auto
  have nreal: "\<not> (c = CHR ''.'' \<and> hd cs = CHR ''.'' \<and> (tl cs = [] \<or> hd (tl cs) = CHR ''/''))"
    using assms(3,4) cs e by (cases cs; cases "tl cs") auto
  have tw: "takeWhile (\<lambda>x. x \<noteq> CHR ''/'') cs = cs" and dw: "dropWhile (\<lambda>x. x \<noteq> CHR ''/'') cs = []"
    using cs by (auto simp: takeWhile_eq_all_conv)
  show ?thesis
    by (simp add: e step_elem[OF nsl ndot nreal] tw dw)
qed

lemma backtrack_ge: "dd \<le> n \<Longrightarrow> dd \<le> backtrack dd buf n"
proof (induction dd buf n rule: backtrack.induct)
  case (1 dotdot buf n)
  then show ?case by (subst backtrack.simps) auto
qed

lemma clean_loop_rooted:
  "clean_loop True p out dd = (o', d') \<Longrightarrow> out \<noteq> [] \<Longrightarrow> hd out = CHR ''/'' \<Longrightarrow> 1 \<le> dd
     \<Longrightarrow> o' \<noteq> [] \<and> hd o' = CHR ''/''"
proof (induction True p out dd rule: clean_loop.induct)
  case (1 out dotdot)
  then show ?case by simp
next
  case (2 c cs out dotdot)
  show ?case
  proof (cases "c = CHR ''/''")
    case True
    with 2 show ?thesis by (simp add: step_slash)
  next
    case nsl: False
    show ?thesis
    proof (cases "c = CHR ''.'' \<and> (cs = [] \<or> hd cs = CHR ''/'')")
      case True
      with "2.hyps"(2)[OF nsl True] "2.prems" step_dot[of cs True out dotdot] show ?thesis by simp
    next
      case ndot: False
      show ?thesis
      proof (cases "c = CHR ''.'' \<and> hd cs = CHR ''.'' \<and> (tl cs = [] \<or> hd (tl cs) = CHR ''/'')")
        case True
        then obtain cs' where cs: "cs = CHR ''.'' # cs'" and cs': "cs' = [] \<or> hd cs' = CHR ''/''"
          using ndot by (cases cs) auto
        have c: "c = CHR ''.''" using True by simp
        note R = step_dotdot[OF cs', of True out dotdot]
        show ?thesis
        proof (cases "dotdot < length out")
          case bt: True
          let ?n = "backtrack dotdot out (length out - 1)"
          have "dotdot \<le> length out - 1" using bt by arith
          then have "dotdot \<le> ?n" by (rule backtrack_ge)
          then have "1 \<le> ?n" using "2.prems"(4) by arith
          then have "take ?n out \<noteq> []" "hd (take ?n out) = CHR ''/''"
            using "2.prems"(2,3) by (cases out; cases ?n; simp)+
          with "2.hyps"(3)[OF nsl ndot True bt] "2.prems" R bt show ?thesis by (simp add: c cs)
        next
          case nbt: False
          with "2.hyps"(5)[OF nsl ndot True nbt] "2.prems" R show ?thesis by (simp add: c cs)
        qed
      next
        case nreal: False
        let ?x = "(if need_slash True out then out @ ''/'' else out)"
        have "?x @ c # takeWhile (\<lambda>x. x \<noteq> CHR ''/'') cs \<noteq> []"
          "hd (?x @ c # takeWhile (\<lambda>x. x \<noteq> CHR ''/'') cs) = CHR ''/''"
          using "2.prems"(2,3) by auto
        with "2.hyps"(6)[OF nsl ndot nreal refl] "2.prems" show ?thesis
          by (simp add: step_elem[OF nsl ndot nreal])
      qed
    qed
  qed
qed

subsection \<open>Paths that end in a real element\<close>

lemma clean_loop_append_Cons:
  "clean_loop r (c # p @ CHR ''/'' # s) out dd =
     (case clean_loop r (c # p) out dd of (o', d') \<Rightarrow> clean_loop r s o' d')"
  using clean_loop_append[of r "c # p" s out dd] by simp

lemma clean_buf_slash: "p \<noteq> [] \<Longrightarrow> clean_buf (p @ ''/'') = clean_buf p"
  by (cases p) (simp_all add: clean_buf_def clean_loop_append clean_loop_append_Cons split: prod.splits)

lemma clean_buf_elem_only:
  assumes "e \<noteq> []" "CHR ''/'' \<notin> set e" "e \<noteq> ''.''" "e \<noteq> ''..''"
  shows "clean_buf e = e"
proof -
  have "hd e \<noteq> CHR ''/''" using assms(1,2) by (cases e) auto
  then show ?thesis by (simp add: clean_buf_def clean_loop_elem[OF assms] need_slash_def)
qed

lemma clean_buf_elem:
  assumes e: "e \<noteq> []" "CHR ''/'' \<notin> set e" "e \<noteq> ''.''" "e \<noteq> ''..''"
  shows "clean_buf (q @ CHR ''/'' # e) =
           (if need_slash (hd (q @ ''/'') = CHR ''/'') (clean_buf (q @ ''/''))
            then clean_buf (q @ ''/'') @ ''/'' else clean_buf (q @ ''/'')) @ e"
proof (cases q)
  case Nil
  then show ?thesis
    by (simp add: clean_buf_def clean_loop_elem[OF e] need_slash_def)
next
  case (Cons c cs)
  show ?thesis
    by (simp add: Cons clean_buf_def clean_loop_append clean_loop_append_Cons
          clean_loop_elem[OF e] split: prod.splits)
qed

lemma clean_buf_rooted:
  assumes "p \<noteq> []" "hd p = CHR ''/''"
  shows "clean_buf p \<noteq> [] \<and> hd (clean_buf p) = CHR ''/''"
proof -
  obtain o' d' where r: "clean_loop True (tl p) ''/'' 1 = (o', d')" by (cases "clean_loop True (tl p) ''/'' 1")
  from clean_loop_rooted[OF r] have "o' \<noteq> [] \<and> hd o' = CHR ''/''" by simp
  then show ?thesis using assms r by (simp add: clean_buf_def)
qed



lemma clean_buf_elem_ex:
  assumes e: "e \<noteq> []" "CHR ''/'' \<notin> set e" "e \<noteq> ''.''" "e \<noteq> ''..''"
  shows "\<exists>pre. clean_buf (q @ CHR ''/'' # e) = pre @ e \<and> (pre = [] \<or> last pre = CHR ''/'')
           \<and> (hd (q @ ''/'') = CHR ''/'' \<longrightarrow> pre \<noteq> [])"
proof -
  let ?b = "clean_buf (q @ ''/'')"
  let ?r = "hd (q @ ''/'') = CHR ''/''"
  let ?pre = "if need_slash ?r ?b then ?b @ ''/'' else ?b"
  have buf: "clean_buf (q @ CHR ''/'' # e) = ?pre @ e" by (rule clean_buf_elem[OF e])
  have rooted: "?r \<Longrightarrow> ?b \<noteq> [] \<and> hd ?b = CHR ''/''"
    using clean_buf_rooted[of "q @ ''/''"] by simp
  have "?pre = [] \<or> last ?pre = CHR ''/''"
  proof (cases "need_slash ?r ?b")
    case True
    then show ?thesis by simp
  next
    case False
    show ?thesis
    proof (cases ?r)
      case True
      with False have "length ?b = 1" by (simp add: need_slash_def)
      with rooted[OF True] have "?b = ''/''" by (cases ?b) auto
      with False show ?thesis by simp
    next
      case nr: False
      with False have "?b = []" by (simp add: need_slash_def)
      with False show ?thesis by simp
    qed
  qed
  moreover have "?r \<longrightarrow> ?pre \<noteq> []" using rooted by auto
  ultimately show ?thesis using buf by blast
qed

lemma path_Clean_elem:
  assumes e: "e \<noteq> []" "CHR ''/'' \<notin> set e" "e \<noteq> ''.''" "e \<noteq> ''..''"
  shows "\<exists>pre. path_Clean (q @ CHR ''/'' # e) = pre @ e \<and> (pre = [] \<or> last pre = CHR ''/'')
           \<and> (hd (q @ ''/'') = CHR ''/'' \<longrightarrow> pre \<noteq> [])"
proof -
  from clean_buf_elem_ex[OF e, of q] obtain pre where
    p: "clean_buf (q @ CHR ''/'' # e) = pre @ e" "pre = [] \<or> last pre = CHR ''/''"
       "hd (q @ ''/'') = CHR ''/'' \<longrightarrow> pre \<noteq> []" by blast
  have "path_Clean (q @ CHR ''/'' # e) = pre @ e"
    using e(1) p(1) by (simp add: path_Clean_def Let_def)
  with p show ?thesis by blast
qed

subsection \<open>The digest is forty hexadecimal characters\<close>

lemma length_sha1_Sum: "length (sha1_Sum m) = 20"
  by (simp add: sha1_Sum_def Let_def u32_bytes_def split: prod.splits)

lemma length_EncodeToString: "length (EncodeToString bs) = 2 * length bs"
  by (induction bs) auto

lemma hi_nibble: "unat (drop_bit 4 (v :: byte)) < 16"
proof -
  have "unat (drop_bit 4 v) = drop_bit 4 (unat v)" by (simp add: unat_drop_bit_eq)
  also have "\<dots> = unat v div 2 ^ 4" by (simp only: drop_bit_eq_div)
  finally have "unat (drop_bit 4 v) = unat v div 16" by simp
  moreover have "unat v < 256" using unsigned_less[of v, where 'a=nat] by simp
  ultimately show ?thesis by simp
qed

lemma lo_nibble: "unat ((v :: byte) AND 0x0f) < 16"
proof -
  have "v AND 0x0f = take_bit 4 v"
    by (simp add: take_bit_eq_mask mask_eq_exp_minus_1)
  then have "unat (v AND 0x0f) = take_bit 4 (unat v)"
    by (simp add: unsigned_take_bit_eq)
  also have "\<dots> < 2 ^ 4"
    by (rule take_bit_nat_less_exp)
  finally show ?thesis by simp
qed

lemma set_EncodeToString: "set (EncodeToString bs) \<subseteq> set hextable"
proof (induction bs)
  case Nil
  show ?case by simp
next
  case (Cons v bs)
  have "length hextable = 16" by (simp add: hextable_def)
  then have "hextable ! unat (drop_bit 4 v) \<in> set hextable" "hextable ! unat (v AND 0x0f) \<in> set hextable"
    using hi_nibble[of v] lo_nibble[of v] by (simp_all only: nth_mem)
  with Cons show ?case by simp
qed

lemma length_convertSha1: "length (convertSha1 s) = 40"
  by (simp add: convertSha1_def length_EncodeToString length_sha1_Sum)

lemma set_convertSha1: "set (convertSha1 s) \<subseteq> set ''0123456789abcdef''"
  using set_EncodeToString[of "sha1_Sum (map of_char s)"] by (simp add: convertSha1_def hextable_def)

lemma convertSha1_elem:
  "convertSha1 s \<noteq> []" "CHR ''/'' \<notin> set (convertSha1 s)" "convertSha1 s \<noteq> ''.''" "convertSha1 s \<noteq> ''..''"
proof -
  show "convertSha1 s \<noteq> []" "convertSha1 s \<noteq> ''.''" "convertSha1 s \<noteq> ''..''"
    using length_convertSha1[of s] by auto
  show "CHR ''/'' \<notin> set (convertSha1 s)" using set_convertSha1[of s] by auto
qed

subsection \<open>The digest of \<open>a=1\<close>\<close>

text \<open>
  The model of SHA-1 evaluated on the three bytes of \<open>a=1\<close>: padding, the sixteen
  message words, the schedule of eighty words, the eighty rounds in four runs of twenty,
  and the hexadecimal encoding of the sum.
\<close>

lemma replicate_numeral: "replicate (numeral n) x = x # replicate (pred_numeral n) x"
  by (simp add: numeral_eq_Suc)

lemma schedule_numeral:
  "schedule (numeral n) ws =
     schedule (pred_numeral n)
       (ws @ [RotateLeft32 (ws ! (length ws - 3) XOR ws ! (length ws - 8)
                XOR ws ! (length ws - 14) XOR ws ! (length ws - 16)) 1])"
  by (simp add: numeral_eq_Suc)

lemma sha1_rounds_append:
  "sha1_rounds i (xs @ ys) s = sha1_rounds (i + length xs) ys (sha1_rounds i xs s)"
  by (induction xs arbitrary: i s) simp_all

lemma sha1_rounds_chain:
  assumes "sha1_rounds i xs s = s'" and "sha1_rounds (i + length xs) ys s' = r"
  shows "sha1_rounds i (xs @ ys) s = r"
  using assms by (simp add: sha1_rounds_append)

lemma sha1_padded:
  "sha1_pad [97, 61, 49] =
     [97, 61, 49, 128, 0, 0, 0, 0, 0, 0, 0, 0, 0, 0, 0, 0, 0, 0, 0, 0, 0, 0, 0, 0, 0, 0, 0, 0, 0,
     0, 0, 0, 0, 0, 0, 0, 0, 0, 0, 0, 0, 0, 0, 0, 0, 0, 0, 0, 0, 0, 0, 0, 0, 0, 0, 0, 0, 0,
     0, 0, 0, 0, 0, 24]"
proof -
  have "length ([97, 61, 49] :: byte list) = 3" by simp
  then show ?thesis
    unfolding sha1_pad_def by (simp add: replicate_numeral u64_bytes_def upt_rec)
qed

lemma sha1_words:
  "map (\<lambda>i. be_u32 (drop (4 * i)
     [97, 61, 49, 128, 0, 0, 0, 0, 0, 0, 0, 0, 0, 0, 0, 0, 0, 0, 0, 0, 0, 0, 0, 0, 0, 0, 0, 0, 0,
     0, 0, 0, 0, 0, 0, 0, 0, 0, 0, 0, 0, 0, 0, 0, 0, 0, 0, 0, 0, 0, 0, 0, 0, 0, 0, 0, 0, 0,
     0, 0, 0, 0, 0, 24])) [0..<16] =
     [0x613D3180, 0x00000000, 0x00000000, 0x00000000, 0x00000000, 0x00000000, 0x00000000,
     0x00000000, 0x00000000, 0x00000000, 0x00000000, 0x00000000, 0x00000000, 0x00000000,
     0x00000000, 0x00000018]"
  by (simp add: be_u32_def upt_rec)

lemma sha1_schedule:
  "schedule 64
     [0x613D3180, 0x00000000, 0x00000000, 0x00000000, 0x00000000, 0x00000000, 0x00000000,
     0x00000000, 0x00000000, 0x00000000, 0x00000000, 0x00000000, 0x00000000, 0x00000000,
     0x00000000, 0x00000018] =
     [0x613D3180, 0x00000000, 0x00000000, 0x00000000, 0x00000000, 0x00000000, 0x00000000,
     0x00000000, 0x00000000, 0x00000000, 0x00000000, 0x00000000, 0x00000000, 0x00000000,
     0x00000000, 0x00000018, 0xC27A6300, 0x00000000, 0x00000030, 0x84F4C601, 0x00000000,
     0x00000060, 0x09E98C03, 0x00000030, 0x84F4C6C1, 0x13D31806, 0x00000000, 0x00000180,
     0x27A6300C, 0x000000F0, 0x9727DD07, 0x4F4C6048, 0x8D1D4A02, 0x00000600, 0x9E98C0F0,
     0x13D31BC6, 0x5C9F741E, 0x3D3180A1, 0x13D31806, 0x000018C0, 0x69B018C4, 0x00000F00,
     0x727DD079, 0xF4C604E4, 0xD83D2C2B, 0x000060C0, 0xFA5F17CF, 0x2EE2A547, 0xF46BE5EC,
     0xD3180A13, 0x3D3183A1, 0x5C9EF4DE, 0x88D29440, 0x0000F600, 0xB945C7A7, 0x4C604D8F,
     0xDF4DB6A3, 0x3D378CA1, 0xB62264F9, 0xEE2A4CB2, 0x2F0E460B, 0x3180AEFD, 0xB2B6F26C,
     0x3D2949A1, 0x4F2EFC26, 0x000F0000, 0x7DD07572, 0xFB356495, 0x3D2C2BD8, 0x0060C000,
     0x5F17CFFA, 0xE2A546AE, 0x4C43DCF8, 0x180A1FD3, 0x0CB2225C, 0xD1B8B444, 0x713D00D9,
     0x00F60A00, 0xE66EEBE8, 0x5D7C1FAD]"
  by (simp add: RotateLeft32_def schedule_numeral)

lemma sha1_rounds_0:
  "sha1_rounds 0
     [0x613D3180, 0x00000000, 0x00000000, 0x00000000, 0x00000000, 0x00000000, 0x00000000,
     0x00000000, 0x00000000, 0x00000000, 0x00000000, 0x00000000, 0x00000000, 0x00000000,
     0x00000000, 0x00000018, 0xC27A6300, 0x00000000, 0x00000030, 0x84F4C601]
     (0x67452301, 0xEFCDAB89, 0x98BADCFE, 0x10325476, 0xC3D2E1F0) =
     (0xA974B535, 0xC19876A0, 0x58EA19D3, 0x95D8417E, 0x3FC73C37)"
  by (simp add: sha1_round_def RotateLeft32_def)

lemma sha1_rounds_20:
  "sha1_rounds 20
     [0x00000000, 0x00000060, 0x09E98C03, 0x00000030, 0x84F4C6C1, 0x13D31806, 0x00000000,
     0x00000180, 0x27A6300C, 0x000000F0, 0x9727DD07, 0x4F4C6048, 0x8D1D4A02, 0x00000600,
     0x9E98C0F0, 0x13D31BC6, 0x5C9F741E, 0x3D3180A1, 0x13D31806, 0x000018C0]
     (0xA974B535, 0xC19876A0, 0x58EA19D3, 0x95D8417E, 0x3FC73C37) =
     (0x9EEE6F75, 0xFE86BE1C, 0x2071B2D3, 0x6D00EF50, 0x0025FEC3)"
  by (simp add: sha1_round_def RotateLeft32_def)

lemma sha1_rounds_40:
  "sha1_rounds 40
     [0x69B018C4, 0x00000F00, 0x727DD079, 0xF4C604E4, 0xD83D2C2B, 0x000060C0, 0xFA5F17CF,
     0x2EE2A547, 0xF46BE5EC, 0xD3180A13, 0x3D3183A1, 0x5C9EF4DE, 0x88D29440, 0x0000F600,
     0xB945C7A7, 0x4C604D8F, 0xDF4DB6A3, 0x3D378CA1, 0xB62264F9, 0xEE2A4CB2]
     (0x9EEE6F75, 0xFE86BE1C, 0x2071B2D3, 0x6D00EF50, 0x0025FEC3) =
     (0x8E709FC6, 0xB949501E, 0x44C0B03F, 0x176D1862, 0x1BE57A1B)"
  by (simp add: sha1_round_def RotateLeft32_def)

lemma sha1_rounds_60:
  "sha1_rounds 60
     [0x2F0E460B, 0x3180AEFD, 0xB2B6F26C, 0x3D2949A1, 0x4F2EFC26, 0x000F0000, 0x7DD07572,
     0xFB356495, 0x3D2C2BD8, 0x0060C000, 0x5F17CFFA, 0xE2A546AE, 0x4C43DCF8, 0x180A1FD3,
     0x0CB2225C, 0xD1B8B444, 0x713D00D9, 0x00F60A00, 0xE66EEBE8, 0x5D7C1FAD]
     (0x8E709FC6, 0xB949501E, 0x44C0B03F, 0x176D1862, 0x1BE57A1B) =
     (0x1FA8846F, 0xB6385C9B, 0x17D6004F, 0xE05F8F47, 0x7D4E45AC)"
  by (simp add: sha1_round_def RotateLeft32_def)

lemma sha1_rounds_80:
  "sha1_rounds 0
     [0x613D3180, 0x00000000, 0x00000000, 0x00000000, 0x00000000, 0x00000000, 0x00000000,
     0x00000000, 0x00000000, 0x00000000, 0x00000000, 0x00000000, 0x00000000, 0x00000000,
     0x00000000, 0x00000018, 0xC27A6300, 0x00000000, 0x00000030, 0x84F4C601, 0x00000000,
     0x00000060, 0x09E98C03, 0x00000030, 0x84F4C6C1, 0x13D31806, 0x00000000, 0x00000180,
     0x27A6300C, 0x000000F0, 0x9727DD07, 0x4F4C6048, 0x8D1D4A02, 0x00000600, 0x9E98C0F0,
     0x13D31BC6, 0x5C9F741E, 0x3D3180A1, 0x13D31806, 0x000018C0, 0x69B018C4, 0x00000F00,
     0x727DD079, 0xF4C604E4, 0xD83D2C2B, 0x000060C0, 0xFA5F17CF, 0x2EE2A547, 0xF46BE5EC,
     0xD3180A13, 0x3D3183A1, 0x5C9EF4DE, 0x88D29440, 0x0000F600, 0xB945C7A7, 0x4C604D8F,
     0xDF4DB6A3, 0x3D378CA1, 0xB62264F9, 0xEE2A4CB2, 0x2F0E460B, 0x3180AEFD, 0xB2B6F26C,
     0x3D2949A1, 0x4F2EFC26, 0x000F0000, 0x7DD07572, 0xFB356495, 0x3D2C2BD8, 0x0060C000,
     0x5F17CFFA, 0xE2A546AE, 0x4C43DCF8, 0x180A1FD3, 0x0CB2225C, 0xD1B8B444, 0x713D00D9,
     0x00F60A00, 0xE66EEBE8, 0x5D7C1FAD]
     (0x67452301, 0xEFCDAB89, 0x98BADCFE, 0x10325476, 0xC3D2E1F0) =
     (0x1FA8846F, 0xB6385C9B, 0x17D6004F, 0xE05F8F47, 0x7D4E45AC)"
proof -
  let ?A = "[0x613D3180, 0x00000000, 0x00000000, 0x00000000, 0x00000000, 0x00000000, 0x00000000,
     0x00000000, 0x00000000, 0x00000000, 0x00000000, 0x00000000, 0x00000000, 0x00000000,
     0x00000000, 0x00000018, 0xC27A6300, 0x00000000, 0x00000030, 0x84F4C601] :: u32 list"
  let ?B = "[0x00000000, 0x00000060, 0x09E98C03, 0x00000030, 0x84F4C6C1, 0x13D31806, 0x00000000,
     0x00000180, 0x27A6300C, 0x000000F0, 0x9727DD07, 0x4F4C6048, 0x8D1D4A02, 0x00000600,
     0x9E98C0F0, 0x13D31BC6, 0x5C9F741E, 0x3D3180A1, 0x13D31806, 0x000018C0] :: u32 list"
  let ?C = "[0x69B018C4, 0x00000F00, 0x727DD079, 0xF4C604E4, 0xD83D2C2B, 0x000060C0, 0xFA5F17CF,
     0x2EE2A547, 0xF46BE5EC, 0xD3180A13, 0x3D3183A1, 0x5C9EF4DE, 0x88D29440, 0x0000F600,
     0xB945C7A7, 0x4C604D8F, 0xDF4DB6A3, 0x3D378CA1, 0xB62264F9, 0xEE2A4CB2] :: u32 list"
  let ?D = "[0x2F0E460B, 0x3180AEFD, 0xB2B6F26C, 0x3D2949A1, 0x4F2EFC26, 0x000F0000, 0x7DD07572,
     0xFB356495, 0x3D2C2BD8, 0x0060C000, 0x5F17CFFA, 0xE2A546AE, 0x4C43DCF8, 0x180A1FD3,
     0x0CB2225C, 0xD1B8B444, 0x713D00D9, 0x00F60A00, 0xE66EEBE8, 0x5D7C1FAD] :: u32 list"
  have lC: "40 + length ?C = 60" and lB: "20 + length ?B = 40" and lA: "0 + length ?A = 20"
    by simp_all
  have c: "sha1_rounds 40 (?C @ ?D) (0x9EEE6F75, 0xFE86BE1C, 0x2071B2D3, 0x6D00EF50, 0x0025FEC3) = (0x1FA8846F, 0xB6385C9B, 0x17D6004F, 0xE05F8F47, 0x7D4E45AC)"
    by (rule sha1_rounds_chain[OF sha1_rounds_40]) (simp only: lC sha1_rounds_60)
  have b: "sha1_rounds 20 (?B @ ?C @ ?D) (0xA974B535, 0xC19876A0, 0x58EA19D3, 0x95D8417E, 0x3FC73C37) = (0x1FA8846F, 0xB6385C9B, 0x17D6004F, 0xE05F8F47, 0x7D4E45AC)"
    by (rule sha1_rounds_chain[OF sha1_rounds_20]) (simp only: lB c)
  have a: "sha1_rounds 0 (?A @ ?B @ ?C @ ?D) (0x67452301, 0xEFCDAB89, 0x98BADCFE, 0x10325476, 0xC3D2E1F0) = (0x1FA8846F, 0xB6385C9B, 0x17D6004F, 0xE05F8F47, 0x7D4E45AC)"
    by (rule sha1_rounds_chain[OF sha1_rounds_0]) (simp only: lA b)
  then show ?thesis by (simp only: append.simps)
qed

lemma sha1_block:
  "block (0x67452301, 0xEFCDAB89, 0x98BADCFE, 0x10325476, 0xC3D2E1F0)
     [97, 61, 49, 128, 0, 0, 0, 0, 0, 0, 0, 0, 0, 0, 0, 0, 0, 0, 0, 0, 0, 0, 0, 0, 0, 0, 0, 0, 0,
     0, 0, 0, 0, 0, 0, 0, 0, 0, 0, 0, 0, 0, 0, 0, 0, 0, 0, 0, 0, 0, 0, 0, 0, 0, 0, 0, 0, 0,
     0, 0, 0, 0, 0, 24] =
     (0x86EDA770, 0xA6060824, 0xB090DD4D, 0xF091E3BD, 0x4121279C)"
  unfolding block_def sha1_words Let_def sha1_schedule sha1_rounds_80 by simp

lemma sha1_digest:
  "sha1_Sum [97, 61, 49] =
     [134, 237, 167, 112, 166, 6, 8, 36, 176, 144, 221, 77, 240, 145, 227, 189, 65, 33, 39, 156]"
  unfolding sha1_Sum_def sha1_padded Let_def
  by (simp add: sha1_block u32_bytes_def)

lemma convertSha1_example: "convertSha1 ''a=1'' = ''86eda770a6060824b090dd4df091e3bd4121279c''"
proof -
  have "(map of_char ''a=1'' :: byte list) = [97, 61, 49]" by simp
  then show ?thesis
    unfolding convertSha1_def by (simp add: sha1_digest hextable_def)
qed

section \<open>The object key\<close>

lemma HasSuffix_slash: "HasSuffix s ''/'' = (s \<noteq> [] \<and> last s = CHR ''/'')"
proof (cases s rule: rev_cases)
  case Nil
  then show ?thesis by (simp add: HasSuffix_def)
next
  case (snoc ys y)
  then show ?thesis by (auto simp: HasSuffix_def)
qed

lemma path_Join3: "a \<noteq> [] \<Longrightarrow> path_Join [a, b, c] = path_Clean (a @ CHR ''/'' # b @ CHR ''/'' # c)"
  by simp



lemma joinPath_dir:
  assumes "uriPath \<noteq> []" "last uriPath = CHR ''/''"
  shows "joinPath root uriPath =
           Inr (if path_Join [root, uriPath] = ''/'' then ''/'' else path_Join [root, uriPath] @ ''/'')"
proof -
  have "drop (length uriPath - 1) uriPath = ''/''"
    using assms by (cases uriPath rule: rev_cases) auto
  with assms(1) show ?thesis by (simp add: joinPath_def Let_def)
qed

lemma index_elem:
  "''index.html'' \<noteq> []" "CHR ''/'' \<notin> set ''index.html''" "''index.html'' \<noteq> ''.''" "''index.html'' \<noteq> ''..''"
  by simp_all




lemma joinPath_site_page: "joinPath ''/site'' ''/page'' = Inr ''/site/page''"
  by (simp add: joinPath_def path_Clean_def clean_buf_def step_slash step_elem need_slash_def)

lemma joinPath_site_images: "joinPath ''/site'' ''/images/'' = Inr ''/site/images/''"
  by (simp add: joinPath_def path_Clean_def clean_buf_def step_slash step_elem need_slash_def)

lemma key_site_images: "GetHandler_s3Key ''/site/images/'' [] = ''/site/images/index.html''"
  by (simp add: GetHandler_s3Key_def HasSuffix_def path_Clean_def clean_buf_def step_slash step_elem need_slash_def)



lemma key_query:
  assumes "rawQuery \<noteq> []"
  shows "\<exists>pre. GetHandler_s3Key fullPath rawQuery = pre @ convertSha1 rawQuery
           \<and> (pre = [] \<or> last pre = CHR ''/'')"
proof -
  let ?h = "convertSha1 rawQuery"
  let ?k = "if HasSuffix fullPath ''/'' then path_Join [fullPath, ''index.html''] else fullPath"
  have key: "GetHandler_s3Key fullPath rawQuery = path_Join [?k, ''/'', ?h]"
    using assms by (simp add: GetHandler_s3Key_def Let_def del: path_Join.simps)
  have "\<exists>q. path_Join [?k, ''/'', ?h] = path_Clean (q @ CHR ''/'' # ?h)"
  proof (cases "?k = []")
    case True
    then have "path_Join [?k, ''/'', ?h] = path_Clean (''/'' @ CHR ''/'' # ?h)" by simp
    then show ?thesis by blast
  next
    case False
    then have "path_Join [?k, ''/'', ?h] = path_Clean ((?k @ ''//'') @ CHR ''/'' # ?h)"
      by (simp add: path_Join3 del: path_Join.simps)
    then show ?thesis by blast
  qed
  then obtain q where "GetHandler_s3Key fullPath rawQuery = path_Clean (q @ CHR ''/'' # ?h)"
    using key by auto
  with path_Clean_elem[OF convertSha1_elem, of q rawQuery] show ?thesis by auto
qed

text \<open>
  Claim C8. For a non-empty raw query the key ends in the segment \<open>convertSha1 rawQuery\<close>:
  the key is a prefix, empty or ending in \<open>/\<close>, followed by the digest. The digest is
  the hexadecimal encoding of the SHA-1 sum of the query bytes, a function of them alone;
  it has 40 characters, all of them among \<open>0123456789abcdef\<close>.
\<close>
theorem query_digest_segment:
  assumes "rawQuery \<noteq> []"
  shows "\<exists>pre. GetHandler_s3Key fullPath rawQuery = pre @ convertSha1 rawQuery
           \<and> (pre = [] \<or> last pre = CHR ''/'')
           \<and> convertSha1 rawQuery = EncodeToString (sha1_Sum (map of_char rawQuery))
           \<and> length (convertSha1 rawQuery) = 40
           \<and> set (convertSha1 rawQuery) \<subseteq> set ''0123456789abcdef''"
proof -
  from key_query[OF assms] obtain pre where
    "GetHandler_s3Key fullPath rawQuery = pre @ convertSha1 rawQuery" "pre = [] \<or> last pre = CHR ''/''"
    by blast
  then show ?thesis
    using length_convertSha1[of rawQuery] set_convertSha1[of rawQuery]
    by (auto simp: convertSha1_def)
qed

lemma path_Clean_under:
  assumes e: "e \<noteq> []" "CHR ''/'' \<notin> set e" "e \<noteq> ''.''" "e \<noteq> ''..''"
    and b: "clean_buf (q @ ''/'') = b" and n: "need_slash (hd (q @ ''/'') = CHR ''/'') b"
  shows "path_Clean (q @ CHR ''/'' # e) = b @ CHR ''/'' # e"
  using clean_buf_elem[OF e, of q] b n e(1) by (simp add: path_Clean_def Let_def)

lemma key_site_page_query:
  "GetHandler_s3Key ''/site/page'' ''a=1'' = ''/site/page/'' @ convertSha1 ''a=1''"
proof -
  have b: "clean_buf (''/site/page//'' @ ''/'') = ''/site/page''"
    by (simp add: clean_buf_def step_slash step_elem need_slash_def)
  have "GetHandler_s3Key ''/site/page'' ''a=1'' = path_Clean (''/site/page//'' @ CHR ''/'' # convertSha1 ''a=1'')"
    by (simp add: GetHandler_s3Key_def HasSuffix_def)
  also have "\<dots> = ''/site/page'' @ CHR ''/'' # convertSha1 ''a=1''"
    by (rule path_Clean_under[OF convertSha1_elem b]) (simp add: need_slash_def)
  finally show ?thesis by simp
qed

theorem query_digest_segment_witness:
  "''a=1'' \<noteq> []
   \<and> joinPath ''/site'' ''/page'' = Inr ''/site/page''
   \<and> GetHandler_s3Key ''/site/page'' ''a=1'' = ''/site/page/'' @ convertSha1 ''a=1''
   \<and> GetHandler_s3Key ''/site/page'' ''a=1'' = ''/site/page/86eda770a6060824b090dd4df091e3bd4121279c''
   \<and> length (convertSha1 ''a=1'') = 40
   \<and> set (convertSha1 ''a=1'') \<subseteq> set ''0123456789abcdef''"
proof -
  have h: "''a=1'' \<noteq> []" by simp
  from query_digest_segment[OF h, of "''/site/page''"]
  have "length (convertSha1 ''a=1'') = 40" "set (convertSha1 ''a=1'') \<subseteq> set ''0123456789abcdef''"
    by blast+
  moreover have "''/site/page/'' @ convertSha1 ''a=1'' = ''/site/page/86eda770a6060824b090dd4df091e3bd4121279c''"
    by (simp add: convertSha1_example)
  ultimately show ?thesis by (simp add: joinPath_site_page key_site_page_query)
qed

lemma clean_buf_ends_elem:
  assumes e: "e \<noteq> []" "CHR ''/'' \<notin> set e" "e \<noteq> ''.''" "e \<noteq> ''..''"
    and pre: "pre = [] \<or> last pre = CHR ''/''"
  shows "\<exists>pre'. clean_buf (pre @ e) = pre' @ e \<and> (pre' = [] \<or> last pre' = CHR ''/'')"
proof (cases "pre = []")
  case True
  then show ?thesis using clean_buf_elem_only[OF e] by simp
next
  case False
  with pre obtain q where "pre = q @ ''/''" by (cases pre rule: rev_cases) auto
  then show ?thesis using clean_buf_elem_ex[OF e, of q] by auto
qed

lemma clean_buf_slashes: "p \<noteq> [] \<Longrightarrow> clean_buf ((p @ ''//'') @ ''/'') = clean_buf p"
proof -
  assume p: "p \<noteq> []"
  have "clean_buf (((p @ ''/'') @ ''/'') @ ''/'') = clean_buf ((p @ ''/'') @ ''/'')"
    by (rule clean_buf_slash) simp
  also have "\<dots> = clean_buf (p @ ''/'')" by (rule clean_buf_slash) simp
  also have "\<dots> = clean_buf p" by (rule clean_buf_slash[OF p])
  finally show ?thesis by simp
qed

lemma key_index_query:
  assumes f: "fullPath \<noteq> []" "last fullPath = CHR ''/''" and q: "rawQuery \<noteq> []"
  shows "\<exists>pre. GetHandler_s3Key fullPath rawQuery = pre @ ''index.html/'' @ convertSha1 rawQuery
           \<and> (pre = [] \<or> last pre = CHR ''/'')"
proof -
  let ?h = "convertSha1 rawQuery"
  let ?k = "path_Join [fullPath, ''index.html'']"
  have k: "?k = path_Clean (fullPath @ CHR ''/'' # ''index.html'')" using f(1) by simp
  from path_Clean_elem[OF index_elem, of fullPath] obtain pre where
    pre: "?k = pre @ ''index.html''" "pre = [] \<or> last pre = CHR ''/''" unfolding k by blast
  from clean_buf_ends_elem[OF index_elem pre(2)] obtain pre' where
    pre': "clean_buf ?k = pre' @ ''index.html''" "pre' = [] \<or> last pre' = CHR ''/''"
    unfolding pre(1) by blast
  have kn: "?k \<noteq> []" using pre(1) by simp
  have b: "clean_buf ((?k @ ''//'') @ ''/'') = pre' @ ''index.html''"
    using clean_buf_slashes[OF kn] pre'(1) by simp
  have n: "need_slash (hd ((?k @ ''//'') @ ''/'') = CHR ''/'') (pre' @ ''index.html'')"
    by (simp add: need_slash_def)
  have "GetHandler_s3Key fullPath rawQuery = path_Join [?k, ''/'', ?h]"
    using f q by (simp add: GetHandler_s3Key_def HasSuffix_slash Let_def del: path_Join.simps)
  also have "\<dots> = path_Clean ((?k @ ''//'') @ CHR ''/'' # ?h)"
    using kn by (simp add: path_Join3 del: path_Join.simps)
  also have "\<dots> = (pre' @ ''index.html'') @ CHR ''/'' # ?h"
    by (rule path_Clean_under[OF convertSha1_elem b n])
  finally show ?thesis using pre'(2) by auto
qed

text \<open>
  Claim C1, as the code has it. For a \<open>urlPath\<close> ending in \<open>/\<close> and a non-empty
  raw query, \<open>index.html\<close> is appended first and the digest of the query after it:
  the key is \<open>path.Join(path.Join(fullPath, "index.html"), "/", sha1hex)\<close>, and its last
  two segments are \<open>index.html\<close> and the digest. The key is not the digest joined
  directly under the path: for root \<open>/site\<close>, path \<open>/images/\<close> and query \<open>a=1\<close> it
  is \<open>/site/images/index.html/\<close> followed by the digest.
\<close>
theorem trailing_slash_query_key:
  assumes "urlPath \<noteq> []" and "last urlPath = CHR ''/''" and "rawQuery \<noteq> []"
  shows "\<exists>fullPath pre. joinPath root urlPath = Inr fullPath
           \<and> GetHandler_s3Key fullPath rawQuery
               = path_Join [path_Join [fullPath, ''index.html''], ''/'', convertSha1 rawQuery]
           \<and> GetHandler_s3Key fullPath rawQuery = pre @ ''index.html/'' @ convertSha1 rawQuery
           \<and> (pre = [] \<or> last pre = CHR ''/'')"
proof -
  let ?f = "if path_Join [root, urlPath] = ''/'' then ''/'' else path_Join [root, urlPath] @ ''/''"
  have j: "joinPath root urlPath = Inr ?f" by (rule joinPath_dir[OF assms(1,2)])
  have f: "?f \<noteq> []" "last ?f = CHR ''/''" by simp_all
  have "GetHandler_s3Key ?f rawQuery = path_Join [path_Join [?f, ''index.html''], ''/'', convertSha1 rawQuery]"
    using f assms(3) by (simp add: GetHandler_s3Key_def HasSuffix_slash Let_def del: path_Join.simps)
  with j key_index_query[OF f assms(3)] show ?thesis by blast
qed

lemma key_site_images_query:
  "GetHandler_s3Key ''/site/images/'' ''a=1'' = ''/site/images/index.html/'' @ convertSha1 ''a=1''"
proof -
  have b: "clean_buf (''/site/images/index.html//'' @ ''/'') = ''/site/images/index.html''"
    by (simp add: clean_buf_def step_slash step_elem need_slash_def)
  have "GetHandler_s3Key ''/site/images/'' ''a=1''
      = path_Clean (''/site/images/index.html//'' @ CHR ''/'' # convertSha1 ''a=1'')"
    using key_site_images by (simp add: GetHandler_s3Key_def HasSuffix_def del: path_Join.simps) simp
  also have "\<dots> = ''/site/images/index.html'' @ CHR ''/'' # convertSha1 ''a=1''"
    by (rule path_Clean_under[OF convertSha1_elem b]) (simp add: need_slash_def)
  finally show ?thesis by simp
qed

lemma join_site_images_digest:
  "path_Join [''/site/images/'', convertSha1 ''a=1''] = ''/site/images/'' @ convertSha1 ''a=1''"
proof -
  have b: "clean_buf (''/site/images/'' @ ''/'') = ''/site/images''"
    by (simp add: clean_buf_def step_slash step_elem need_slash_def)
  have "path_Join [''/site/images/'', convertSha1 ''a=1'']
      = path_Clean (''/site/images/'' @ CHR ''/'' # convertSha1 ''a=1'')" by simp
  also have "\<dots> = ''/site/images'' @ CHR ''/'' # convertSha1 ''a=1''"
    by (rule path_Clean_under[OF convertSha1_elem b]) (simp add: need_slash_def)
  finally show ?thesis by simp
qed

theorem trailing_slash_query_key_counterexample:
  "joinPath ''/site'' ''/images/'' = Inr ''/site/images/''
   \<and> GetHandler_s3Key ''/site/images/'' ''a=1'' = ''/site/images/index.html/'' @ convertSha1 ''a=1''
   \<and> path_Join [''/site/images/'', convertSha1 ''a=1''] = ''/site/images/'' @ convertSha1 ''a=1''
   \<and> GetHandler_s3Key ''/site/images/'' ''a=1'' \<noteq> path_Join [''/site/images/'', convertSha1 ''a=1'']"
  by (simp add: joinPath_site_images key_site_images_query join_site_images_digest
      del: path_Join.simps)

theorem trailing_slash_query_key_witness:
  "''/images/'' \<noteq> [] \<and> last ''/images/'' = CHR ''/'' \<and> ''a=1'' \<noteq> []
   \<and> joinPath ''/site'' ''/images/'' = Inr ''/site/images/''
   \<and> GetHandler_s3Key ''/site/images/'' ''a=1''
       = path_Join [path_Join [''/site/images/'', ''index.html''], ''/'', convertSha1 ''a=1'']
   \<and> GetHandler_s3Key ''/site/images/'' ''a=1''
       = ''/site/images/'' @ ''index.html/'' @ convertSha1 ''a=1''"
proof -
  have h: "''/images/'' \<noteq> []" "last ''/images/'' = CHR ''/''" "''a=1'' \<noteq> []" by simp_all
  from trailing_slash_query_key[OF h, of "''/site''"] obtain fullPath where
    f: "joinPath ''/site'' ''/images/'' = Inr fullPath"
       "GetHandler_s3Key fullPath ''a=1''
          = path_Join [path_Join [fullPath, ''index.html''], ''/'', convertSha1 ''a=1'']"
    by blast
  from f(1) have "fullPath = ''/site/images/''" by (simp add: joinPath_site_images)
  with f show ?thesis by (simp add: key_site_images_query del: path_Join.simps)
qed

section \<open>The dispatcher\<close>


text \<open>
  Claim C4. A request whose method is not GET is handed to the next handler at once: the
  world is returned as it was, so no storage call is recorded and the writer is
  untouched, and \<open>joinPath\<close> is not evaluated (the result does not depend on the
  path, not even on an empty one).
\<close>
theorem non_GET_delegates:
  "Method r \<noteq> ''GET'' \<Longrightarrow> ServeHTTP e p wd r = (Delegated, wd)"
  by (simp add: ServeHTTP_def)

theorem non_GET_delegates_witness:
  "Method (example_request ''POST'' [] ''a=1'' Map.empty) \<noteq> ''GET''
   \<and> ServeHTTP (example_env (empty_output, None)) (example_proxy ''/site'') new_world
        (example_request ''POST'' [] ''a=1'' Map.empty) = (Delegated, new_world)"
  using non_GET_delegates[of "example_request ''POST'' [] ''a=1'' Map.empty"
      "example_env (empty_output, None)" "example_proxy ''/site''" new_world]
  by (simp add: example_request_def)

text \<open>
  Claim C5. When the storage client answers the request's call with the error code
  \<open>NoSuchKey\<close>, the request is handed to the next handler; the writer is unchanged
  (no header, no status, no body), and the only change to the world is the record of
  the one storage call.
\<close>
theorem NoSuchKey_delegates:
  assumes "Method r = ''GET''"
    and "joinPath (ReplaceAll e (Root p) []) (Path r) = Inr fullPath"
    and "GetObject e (GetObjectInput_of e (BucketName p) (GetHandler_s3Key fullPath (RawQuery r)) r)
           = (obj, Some (AwsErr ''NoSuchKey'' msg))"
  shows "ServeHTTP e p wd r =
           (Delegated,
            wd\<lparr>calls := calls wd @
               [GetObjectInput_of e (BucketName p) (GetHandler_s3Key fullPath (RawQuery r)) r]\<rparr>)"
  using assms by (simp add: ServeHTTP_def GetHandler_def getS3Object_def Let_def)

text \<open>
  Claim C6. A retrieval that succeeds with a content length of zero is turned into an
  error: the request is handed to the next handler and the writer is unchanged, so no
  status 200 (and nothing else) is written.
\<close>
theorem zero_ContentLength_delegates:
  assumes "Method r = ''GET''"
    and "joinPath (ReplaceAll e (Root p) []) (Path r) = Inr fullPath"
    and "GetObject e (GetObjectInput_of e (BucketName p) (GetHandler_s3Key fullPath (RawQuery r)) r)
           = (obj, None)"
    and "ContentLength obj = Some 0"
  shows "ServeHTTP e p wd r =
           (Delegated,
            wd\<lparr>calls := calls wd @
               [GetObjectInput_of e (BucketName p) (GetHandler_s3Key fullPath (RawQuery r)) r]\<rparr>)"
  using assms by (simp add: ServeHTTP_def GetHandler_def getS3Object_def Let_def)

text \<open>
  Claim C10. \<open>joinPath\<close> panics on the empty \<open>uriPath\<close> (the slice at
  \<open>len(uriPath)-1\<close> is out of bounds) and returns a string for every non-empty one;
  a GET request with an empty URL path reaches that panic.
\<close>
theorem joinPath_needs_nonempty_uriPath:
  "joinPath root [] = Inl SliceBoundsOutOfRange
   \<and> (uriPath \<noteq> [] \<longrightarrow> (\<exists>s. joinPath root uriPath = Inr s))
   \<and> (Method r = ''GET'' \<and> Path r = [] \<longrightarrow>
        ServeHTTP e p wd r = (Panicked SliceBoundsOutOfRange, wd))"
  by (simp add: joinPath_def ServeHTTP_def Let_def)



theorem NoSuchKey_delegates_witness:
  "Method (example_request ''GET'' ''/page'' [] Map.empty) = ''GET''
   \<and> joinPath (ReplaceAll (example_env (empty_output, Some (AwsErr ''NoSuchKey'' ''not found'')))
          (Root (example_proxy ''/site'')) []) (Path (example_request ''GET'' ''/page'' [] Map.empty))
       = Inr ''/site/page''
   \<and> ServeHTTP (example_env (empty_output, Some (AwsErr ''NoSuchKey'' ''not found'')))
        (example_proxy ''/site'') new_world (example_request ''GET'' ''/page'' [] Map.empty)
       = (Delegated,
          \<lparr>writer = \<lparr>header = Map.empty, status = None, body = []\<rparr>,
           calls = [\<lparr>Bucket = Some ''bucket'', Key = Some ''/site/page'', Range = None,
                     IfMatch = None, IfNoneMatch = None, IfModifiedSince = None,
                     IfUnmodifiedSince = None\<rparr>]\<rparr>)"
proof -
  let ?e = "example_env (empty_output, Some (AwsErr ''NoSuchKey'' ''not found''))"
  let ?r = "example_request ''GET'' ''/page'' [] Map.empty"
  have m: "Method ?r = ''GET''" by (simp add: example_request_def)
  have j: "joinPath (ReplaceAll ?e (Root (example_proxy ''/site'')) []) (Path ?r) = Inr ''/site/page''"
    by (simp add: example_env_def example_proxy_def example_request_def joinPath_site_page)
  have g: "GetObject ?e (GetObjectInput_of ?e (BucketName (example_proxy ''/site''))
             (GetHandler_s3Key ''/site/page'' (RawQuery ?r)) ?r)
           = (empty_output, Some (AwsErr ''NoSuchKey'' ''not found''))"
    by (simp add: example_env_def)
  show ?thesis
    using NoSuchKey_delegates[OF m j g, of new_world] m j
    by (simp add: new_world_def GetObjectInput_of_def GetHandler_s3Key_def HasSuffix_def
        Header_Get_def example_env_def example_proxy_def example_request_def)
qed

theorem zero_ContentLength_delegates_witness:
  "Method (example_request ''GET'' ''/page'' [] Map.empty) = ''GET''
   \<and> joinPath (ReplaceAll (example_env (empty_output\<lparr>ContentLength := Some 0\<rparr>, None))
          (Root (example_proxy ''/site'')) []) (Path (example_request ''GET'' ''/page'' [] Map.empty))
       = Inr ''/site/page''
   \<and> ContentLength (empty_output\<lparr>ContentLength := Some 0\<rparr>) = Some 0
   \<and> ServeHTTP (example_env (empty_output\<lparr>ContentLength := Some 0\<rparr>, None))
        (example_proxy ''/site'') new_world (example_request ''GET'' ''/page'' [] Map.empty)
       = (Delegated,
          \<lparr>writer = \<lparr>header = Map.empty, status = None, body = []\<rparr>,
           calls = [\<lparr>Bucket = Some ''bucket'', Key = Some ''/site/page'', Range = None,
                     IfMatch = None, IfNoneMatch = None, IfModifiedSince = None,
                     IfUnmodifiedSince = None\<rparr>]\<rparr>)"
proof -
  let ?e = "example_env (empty_output\<lparr>ContentLength := Some 0\<rparr>, None)"
  let ?r = "example_request ''GET'' ''/page'' [] Map.empty"
  have m: "Method ?r = ''GET''" by (simp add: example_request_def)
  have j: "joinPath (ReplaceAll ?e (Root (example_proxy ''/site'')) []) (Path ?r) = Inr ''/site/page''"
    by (simp add: example_env_def example_proxy_def example_request_def joinPath_site_page)
  have g: "GetObject ?e (GetObjectInput_of ?e (BucketName (example_proxy ''/site''))
             (GetHandler_s3Key ''/site/page'' (RawQuery ?r)) ?r)
           = (empty_output\<lparr>ContentLength := Some 0\<rparr>, None)"
    by (simp add: example_env_def)
  have c: "ContentLength (empty_output\<lparr>ContentLength := Some 0\<rparr>) = Some 0" by simp
  show ?thesis
    using zero_ContentLength_delegates[OF m j g c, of new_world] m j
    by (simp add: new_world_def GetObjectInput_of_def GetHandler_s3Key_def HasSuffix_def
        Header_Get_def example_env_def example_proxy_def example_request_def)
qed

theorem joinPath_needs_nonempty_uriPath_witness:
  "joinPath ''/site'' [] = Inl SliceBoundsOutOfRange
   \<and> ''/page'' \<noteq> [] \<and> (\<exists>s. joinPath ''/site'' ''/page'' = Inr s)
   \<and> Method (example_request ''GET'' [] [] Map.empty) = ''GET''
   \<and> Path (example_request ''GET'' [] [] Map.empty) = []
   \<and> ServeHTTP (example_env (empty_output, None)) (example_proxy ''/site'') new_world
        (example_request ''GET'' [] [] Map.empty) = (Panicked SliceBoundsOutOfRange, new_world)"
  using joinPath_needs_nonempty_uriPath[of "''/site''" "''/page''" "example_request ''GET'' [] [] Map.empty"
      "example_env (empty_output, None)" "example_proxy ''/site''" new_world]
  by (simp add: example_request_def)

section \<open>The conditional request parameters\<close>











section \<open>The response\<close>

lemma setStrHeader_status [simp]: "status (setStrHeader e rw k v) = status rw"
  by (simp add: setStrHeader_def split: option.splits)

lemma setStrHeader_body [simp]: "body (setStrHeader e rw k v) = body rw"
  by (simp add: setStrHeader_def split: option.splits)

lemma setTimeHeader_status [simp]: "status (setTimeHeader e rw k v) = status rw"
  by (simp add: setTimeHeader_def split: option.splits)

lemma setTimeHeader_body [simp]: "body (setTimeHeader e rw k v) = body rw"
  by (simp add: setTimeHeader_def split: option.splits)

lemma copy_Metadata_status [simp]: "status (copy_Metadata e rw md) = status rw"
  by (induction e rw md rule: copy_Metadata.induct) simp_all

lemma copy_Metadata_body [simp]: "body (copy_Metadata e rw md) = body rw"
  by (induction e rw md rule: copy_Metadata.induct) simp_all

lemma setStrHeader_header_other:
  "c \<noteq> CanonicalMIMEHeaderKey e k \<Longrightarrow> header (setStrHeader e rw k v) c = header rw c"
  by (simp add: setStrHeader_def Header_Set_def split: option.splits)

lemma copy_Metadata_header_other:
  "c \<notin> (\<lambda>(k, v). CanonicalMIMEHeaderKey e k) ` set md \<Longrightarrow>
   header (copy_Metadata e rw md) c = header rw c"
proof (induction e rw md rule: copy_Metadata.induct)
  case (1 e rw)
  show ?case by simp
next
  case (2 e rw key val md)
  then show ?case by (simp add: setStrHeader_header_other)
qed

lemma copy_Metadata_header:
  assumes "distinct (map (\<lambda>(k, v). CanonicalMIMEHeaderKey e k) md)"
    and "(key, Some v) \<in> set md" and "v \<noteq> []"
  shows "header (copy_Metadata e rw md) (CanonicalMIMEHeaderKey e key) = Some [v]"
  using assms
proof (induction e rw md rule: copy_Metadata.induct)
  case (1 e rw)
  then show ?case by simp
next
  case (2 e rw k val md)
  show ?case
  proof (cases "(key, Some v) = (k, val)")
    case True
    have "CanonicalMIMEHeaderKey e key \<notin> (\<lambda>(k, v). CanonicalMIMEHeaderKey e k) ` set md"
      using "2.prems"(1) True by auto
    then have "header (copy_Metadata e (setStrHeader e rw k val) md) (CanonicalMIMEHeaderKey e key)
        = header (setStrHeader e rw k val) (CanonicalMIMEHeaderKey e key)"
      by (rule copy_Metadata_header_other)
    also have "\<dots> = Some [v]"
      using True "2.prems"(3) by (auto simp: setStrHeader_def Header_Set_def)
    finally show ?thesis by simp
  next
    case False
    with "2.prems" have "(key, Some v) \<in> set md" "distinct (map (\<lambda>(k, v). CanonicalMIMEHeaderKey e k) md)"
      by auto
    with "2.IH" "2.prems"(3) show ?thesis by simp
  qed
qed

lemma copy_Metadata_skips:
  "copy_Metadata e rw md
     = copy_Metadata e rw (filter (\<lambda>(k, val). val \<noteq> None \<and> val \<noteq> Some []) md)"
  by (induction e rw md rule: copy_Metadata.induct) (auto simp: setStrHeader_def)

lemma io_Copy_header [simp]: "header (fst (io_Copy rw src)) = header rw"
  by (simp add: io_Copy_def Write_def Let_def split: prod.splits option.splits)

lemma writeResponse_header:
  assumes "distinct (map (\<lambda>(k, v). CanonicalMIMEHeaderKey e k) (Metadata obj))"
    and "(key, Some v) \<in> set (Metadata obj)" and "v \<noteq> []"
    and "CanonicalMIMEHeaderKey e key \<noteq> CanonicalMIMEHeaderKey e ''X-Cache-S3''"
    and "CanonicalMIMEHeaderKey e key \<noteq> CanonicalMIMEHeaderKey e ''Content-Length''"
  shows "header (fst (writeResponseFromGetObject e rw obj)) (CanonicalMIMEHeaderKey e key) = Some [v]"
  using assms(4,5) copy_Metadata_header[OF assms(1,2,3)]
  by (simp add: writeResponseFromGetObject_def Let_def Header_Set_def Header_Del_def
      split: option.splits)

lemma writeResponse_skips:
  "writeResponseFromGetObject e rw obj
     = writeResponseFromGetObject e rw
         (obj\<lparr>Metadata := filter (\<lambda>(k, val). val \<noteq> None \<and> val \<noteq> Some []) (Metadata obj)\<rparr>)"
  using copy_Metadata_skips[of e _ "Metadata obj"]
  by (simp add: writeResponseFromGetObject_def Let_def)

lemma ServeHTTP_hit:
  assumes "Method r = ''GET''"
    and "joinPath (ReplaceAll e (Root p) []) (Path r) = Inr fullPath"
    and "GetObject e (GetObjectInput_of e (BucketName p) (GetHandler_s3Key fullPath (RawQuery r)) r)
           = (obj, None)"
    and "ContentLength obj = Some n" and "n \<noteq> 0"
  shows "ServeHTTP e p wd r =
           (case writeResponseFromGetObject e (writer wd) obj of
              (rw, err) \<Rightarrow>
                (if err = None then Responded else Delegated,
                 \<lparr>writer = rw,
                  calls = calls wd @
                    [GetObjectInput_of e (BucketName p) (GetHandler_s3Key fullPath (RawQuery r)) r]\<rparr>))"
  using assms
  by (cases wd) (simp add: ServeHTTP_def GetHandler_def getS3Object_def Let_def split: prod.splits option.splits)

text \<open>
  Claim C3, as the code has it. On a hit, an entry of the object's metadata whose value is
  present and not empty is set as a response header, under the canonical form of its key
  and with its value unchanged, provided no other entry has the same canonical key and
  the key is neither that of \<open>X-Cache-S3\<close>, set after the loop, nor that of
  \<open>Content-Length\<close>, deleted before the body is copied. Entries whose value is nil or
  the empty string are skipped by \<open>setStrHeader\<close>: the response is the one the object
  without them would get.
\<close>
theorem metadata_copied_unless_empty:
  assumes "Method r = ''GET''"
    and "joinPath (ReplaceAll e (Root p) []) (Path r) = Inr fullPath"
    and "GetObject e (GetObjectInput_of e (BucketName p) (GetHandler_s3Key fullPath (RawQuery r)) r)
           = (obj, None)"
    and "ContentLength obj = Some n" and "n \<noteq> 0"
    and "distinct (map (\<lambda>(k, v). CanonicalMIMEHeaderKey e k) (Metadata obj))"
    and "(key, Some v) \<in> set (Metadata obj)" and "v \<noteq> []"
    and "CanonicalMIMEHeaderKey e key \<noteq> CanonicalMIMEHeaderKey e ''X-Cache-S3''"
    and "CanonicalMIMEHeaderKey e key \<noteq> CanonicalMIMEHeaderKey e ''Content-Length''"
  shows "header (writer (snd (ServeHTTP e p wd r))) (CanonicalMIMEHeaderKey e key) = Some [v]
         \<and> writeResponseFromGetObject e (writer wd) obj
             = writeResponseFromGetObject e (writer wd)
                 (obj\<lparr>Metadata := filter (\<lambda>(k, val). val \<noteq> None \<and> val \<noteq> Some [])
                                     (Metadata obj)\<rparr>)"
proof -
  have "writer (snd (ServeHTTP e p wd r)) = fst (writeResponseFromGetObject e (writer wd) obj)"
    by (simp add: ServeHTTP_hit[OF assms(1-5)] split: prod.splits)
  then show ?thesis
    using writeResponse_header[OF assms(6-10), of "writer wd"] writeResponse_skips[of e "writer wd" obj]
    by simp
qed

lemma html_written:
  "writeResponseFromGetObject (example_env res) \<lparr>header = Map.empty, status = None, body = []\<rparr>
       html_object
   = (\<lparr>header = (Map.empty(''Content-Type'' \<mapsto> [''text/html''], ''x-foo'' \<mapsto> [''bar''],
                    ''X-Cache-S3'' \<mapsto> [''hit'']))(''Content-Length'' := None),
       status = Some 200, body = [0x68, 0x69]\<rparr>, None)"
  by (simp add: html_object_def empty_output_def example_env_def
      writeResponseFromGetObject_def setStrHeader_def setTimeHeader_def Header_Set_def
      Header_Del_def io_Copy_def Write_def bodyAllowedForStatus_def)

lemma html_hit:
  "ServeHTTP (example_env (html_object, None)) (example_proxy ''/site'') new_world
      (example_request ''GET'' ''/page'' [] Map.empty)
   = (Responded,
      \<lparr>writer = \<lparr>header = (Map.empty(''Content-Type'' \<mapsto> [''text/html''], ''x-foo'' \<mapsto> [''bar''],
                    ''X-Cache-S3'' \<mapsto> [''hit'']))(''Content-Length'' := None),
                 status = Some 200, body = [0x68, 0x69]\<rparr>,
       calls = [GetObjectInput_of (example_env (html_object, None)) ''bucket'' ''/site/page''
                  (example_request ''GET'' ''/page'' [] Map.empty)]\<rparr>)"
proof -
  let ?e = "example_env (html_object, None)"
  let ?r = "example_request ''GET'' ''/page'' [] Map.empty"
  have m: "Method ?r = ''GET''" by (simp add: example_request_def)
  have j: "joinPath (ReplaceAll ?e (Root (example_proxy ''/site'')) []) (Path ?r) = Inr ''/site/page''"
    by (simp add: example_env_def example_proxy_def example_request_def joinPath_site_page)
  have g: "GetObject ?e (GetObjectInput_of ?e (BucketName (example_proxy ''/site''))
             (GetHandler_s3Key ''/site/page'' (RawQuery ?r)) ?r) = (html_object, None)"
    by (simp add: example_env_def)
  have c: "ContentLength html_object = Some 2" "(2 :: 64 word) \<noteq> 0"
    by (simp_all add: html_object_def)
  have k: "GetHandler_s3Key ''/site/page'' (RawQuery ?r) = ''/site/page''"
    by (simp add: GetHandler_s3Key_def HasSuffix_def example_request_def)
  have b: "BucketName (example_proxy ''/site'') = ''bucket''" by (simp add: example_proxy_def)
  have w: "writer new_world = \<lparr>header = Map.empty, status = None, body = []\<rparr>" "calls new_world = []"
    by (simp_all add: new_world_def)
  show ?thesis
    unfolding ServeHTTP_hit[OF m j g c] k b w html_written by simp
qed

theorem metadata_copied_unless_empty_counterexample:
  "fst (ServeHTTP (example_env (html_object, None)) (example_proxy ''/site'') new_world
          (example_request ''GET'' ''/page'' [] Map.empty)) = Responded
   \<and> (''x-empty'', Some []) \<in> set (Metadata html_object)
   \<and> header (writer (snd (ServeHTTP (example_env (html_object, None)) (example_proxy ''/site'')
          new_world (example_request ''GET'' ''/page'' [] Map.empty)))) ''x-empty'' = None"
  unfolding html_hit by (simp add: html_object_def)

theorem metadata_copied_unless_empty_witness:
  "Method (example_request ''GET'' ''/page'' [] Map.empty) = ''GET''
   \<and> ContentLength html_object = Some 2
   \<and> (''x-foo'', Some ''bar'') \<in> set (Metadata html_object)
   \<and> header (writer (snd (ServeHTTP (example_env (html_object, None)) (example_proxy ''/site'')
          new_world (example_request ''GET'' ''/page'' [] Map.empty)))) ''x-foo'' = Some [''bar'']"
proof -
  let ?e = "example_env (html_object, None)"
  let ?r = "example_request ''GET'' ''/page'' [] Map.empty"
  have m: "Method ?r = ''GET''" by (simp add: example_request_def)
  have j: "joinPath (ReplaceAll ?e (Root (example_proxy ''/site'')) []) (Path ?r) = Inr ''/site/page''"
    by (simp add: example_env_def example_proxy_def example_request_def joinPath_site_page)
  have g: "GetObject ?e (GetObjectInput_of ?e (BucketName (example_proxy ''/site''))
             (GetHandler_s3Key ''/site/page'' (RawQuery ?r)) ?r) = (html_object, None)"
    by (simp add: example_env_def)
  have c: "ContentLength html_object = Some 2" "(2 :: 64 word) \<noteq> 0"
    by (simp_all add: html_object_def)
  have d: "distinct (map (\<lambda>(k, v). CanonicalMIMEHeaderKey ?e k) (Metadata html_object))"
    by (simp add: html_object_def example_env_def)
  have k: "(''x-foo'', Some ''bar'') \<in> set (Metadata html_object)" "''bar'' \<noteq> []"
    by (simp_all add: html_object_def)
  have x: "CanonicalMIMEHeaderKey ?e ''x-foo'' \<noteq> CanonicalMIMEHeaderKey ?e ''X-Cache-S3''"
    "CanonicalMIMEHeaderKey ?e ''x-foo'' \<noteq> CanonicalMIMEHeaderKey ?e ''Content-Length''"
    by (simp_all add: example_env_def)
  have "CanonicalMIMEHeaderKey ?e ''x-foo'' = ''x-foo''" by (simp add: example_env_def)
  with metadata_copied_unless_empty[OF m j g c d k x, of new_world] m c(1) k(1)
  show ?thesis by simp
qed











end
